theory Spec2Isabelle
  imports Main
begin

section \<open>Errors\<close>

text \<open>
  Every way the modelled JavaScript can throw or reject is a value of this type.
  \<open>TypeError\<close> is what the engine raises when a property of \<open>undefined\<close> is read or a
  method of \<open>undefined\<close> is called. \<open>Error msg\<close> is \<open>new Error(msg)\<close>. \<open>NotFoundError\<close> and
  \<open>ConstraintError\<close> are the two DOM exceptions of the IndexedDB schema calls used by the
  data source. \<open>Rejected msg\<close> stands for whatever the remote client rejects with.
\<close>

datatype error = TypeError | Error string | NotFoundError | ConstraintError | Rejected string

definition ebind :: "error + 'a \<Rightarrow> ('a \<Rightarrow> error + 'b) \<Rightarrow> error + 'b" where
  "ebind r f = (case r of Inl e \<Rightarrow> Inl e | Inr x \<Rightarrow> f x)"

section \<open>Account data source: the schema upgrade\<close>

text \<open>
  The schema of an IndexedDB database: each object store has a key path and a set of named
  indexes, each index a key path and a uniqueness flag.
\<close>

record index_params =
  index_keyPath :: string
  unique :: bool

record object_store =
  keyPath :: string
  indexes :: "string \<rightharpoonup> index_params"

type_synonym database = "string \<rightharpoonup> object_store"

text \<open>
  The four IndexedDB calls of \<open>onupgradeneeded\<close>. Creating a store or an index under a name
  that is taken raises \<open>ConstraintError\<close>; naming a store or an index that does not exist
  raises \<open>NotFoundError\<close>.
\<close>

definition createObjectStore :: "string \<Rightarrow> string \<Rightarrow> database \<Rightarrow> error + database" where
  "createObjectStore name kp db =
     (case db name of
        Some _ \<Rightarrow> Inl ConstraintError
      | None \<Rightarrow> Inr (db(name \<mapsto> \<lparr>keyPath = kp, indexes = Map.empty\<rparr>)))"

definition createIndex :: "string \<Rightarrow> string \<Rightarrow> string \<Rightarrow> bool \<Rightarrow> database \<Rightarrow> error + database" where
  "createIndex store name kp uniq db =
     (case db store of
        None \<Rightarrow> Inl NotFoundError
      | Some s \<Rightarrow>
          (case indexes s name of
             Some _ \<Rightarrow> Inl ConstraintError
           | None \<Rightarrow>
               Inr (db(store \<mapsto>
                 s\<lparr>indexes := (indexes s)(name \<mapsto> \<lparr>index_keyPath = kp, unique = uniq\<rparr>)\<rparr>))))"

definition deleteIndex :: "string \<Rightarrow> string \<Rightarrow> database \<Rightarrow> error + database" where
  "deleteIndex store name db =
     (case db store of
        None \<Rightarrow> Inl NotFoundError
      | Some s \<Rightarrow>
          (case indexes s name of
             None \<Rightarrow> Inl NotFoundError
           | Some _ \<Rightarrow> Inr (db(store \<mapsto> s\<lparr>indexes := (indexes s)(name := None)\<rparr>))))"

text \<open>
  \<open>AccountDataSource.onupgradeneeded\<close>, in its two blocks. \<open>create_initial_stores\<close> is the
  body of \<open>if (event.oldVersion < 1)\<close>, \<open>drop_alias_index\<close> the body of
  \<open>if (event.oldVersion < 2)\<close>.
\<close>

definition create_initial_stores :: "database \<Rightarrow> error + database" where
  "create_initial_stores db =
     ebind (createObjectStore ''bugs'' ''id'' db) (\<lambda>db.
     ebind (createIndex ''bugs'' ''alias'' ''alias'' True db) (\<lambda>db.
     ebind (createObjectStore ''users'' ''name'' db) (\<lambda>db.
     ebind (createIndex ''users'' ''id'' ''id'' True db) (\<lambda>db.
     createObjectStore ''prefs'' ''name'' db))))"

definition drop_alias_index :: "database \<Rightarrow> error + database" where
  "drop_alias_index db = deleteIndex ''bugs'' ''alias'' db"

definition onupgradeneeded :: "nat \<Rightarrow> database \<Rightarrow> error + database" where
  "onupgradeneeded oldVersion db =
     ebind (if oldVersion < 1 then create_initial_stores db else Inr db) (\<lambda>db.
     if oldVersion < 2 then drop_alias_index db else Inr db)"

text \<open>
  The two schema shapes in the words of the specification. Version 1: the three stores plus
  a unique index on \<open>bugs.alias\<close>. Version 2: \<open>bugs\<close> (key \<open>id\<close>), \<open>users\<close> (key \<open>name\<close>,
  unique index on \<open>id\<close>), \<open>prefs\<close> (key \<open>name\<close>), and no \<open>alias\<close> index.
\<close>

definition users_store :: object_store where
  "users_store =
     \<lparr>keyPath = ''name'',
      indexes = [''id'' \<mapsto> \<lparr>index_keyPath = ''id'', unique = True\<rparr>]\<rparr>"

definition prefs_store :: object_store where
  "prefs_store = \<lparr>keyPath = ''name'', indexes = Map.empty\<rparr>"

definition schema_v1 :: database where
  "schema_v1 =
     [''bugs'' \<mapsto> \<lparr>keyPath = ''id'',
                  indexes = [''alias'' \<mapsto> \<lparr>index_keyPath = ''alias'', unique = True\<rparr>]\<rparr>,
      ''users'' \<mapsto> users_store,
      ''prefs'' \<mapsto> prefs_store]"

definition schema_v2 :: database where
  "schema_v2 =
     [''bugs'' \<mapsto> \<lparr>keyPath = ''id'', indexes = Map.empty\<rparr>,
      ''users'' \<mapsto> users_store,
      ''prefs'' \<mapsto> prefs_store]"

section \<open>Bugs, comments, attachments, history entries\<close>

text \<open>
  The raw objects of the tracker, with the fields the modelled code reads. A field is
  prefixed with the initial of its object (\<open>a_id\<close> is \<open>attachment.id\<close>, \<open>h_when\<close> is
  \<open>_history.when\<close>). A time field holds the value of \<open>get_time\<close> on the field's date string,
  that is \<open>(new Date(str)).getTime()\<close>, in milliseconds. A field that may be \<open>undefined\<close> is
  an \<open>option\<close>.
\<close>

record comment =
  c_count :: nat
  c_text :: string
  c_creation_time :: int

record attachment =
  a_id :: nat
  a_bug_id :: nat
  a_creation_time :: int
  a_is_patch :: bool
  a_content_type :: string
  a_data :: "string option"

record history =
  h_who :: string
  h_when :: int

record bug =
  b_id :: nat
  b_comments :: "comment list"
  b_attachments :: "attachment list option"
  b_history :: "history list"
  b_last_visit :: "int option"

text \<open>JavaScript truthiness of a string that may be \<open>undefined\<close>: \<open>undefined\<close> and \<open>""\<close> are falsy.\<close>

definition truthy :: "string option \<Rightarrow> bool" where
  "truthy v = (case v of None \<Rightarrow> False | Some s \<Rightarrow> s \<noteq> [])"

text \<open>\<open>String.prototype.startsWith\<close>.\<close>

fun startsWith :: "string \<Rightarrow> string \<Rightarrow> bool" where
  "startsWith s [] = True"
| "startsWith [] (p # ps) = False"
| "startsWith (c # cs) (p # ps) = (c = p \<and> startsWith cs ps)"

text \<open>The decimal digits of a number, as a template literal prints it.\<close>

fun digits :: "nat \<Rightarrow> string" where
  "digits n =
     (if n < 10 then [char_of (48 + n)]
      else digits (n div 10) @ [char_of (48 + n mod 10)])"

declare digits.simps [simp del]

section \<open>The world around an attachment model\<close>

text \<open>
  A network request of the attachment model: the path \<open>bug/attachment/<id>\<close> and the query
  string, if any. A response is the parsed JSON; \<open>attachments\<close> is its mapping from id to
  record, absent when the JSON has no such member.
\<close>

datatype path = BugAttachment nat

record request =
  req_path :: path
  req_params :: "string option"

record response =
  attachments :: "(nat \<rightharpoonup> attachment) option"

type_synonym host = "request \<Rightarrow> error + response"

text \<open>
  The state outside the model instance: the log of the network requests issued so far, the
  attachment and bug collections (the in-memory instances by id) and the \<open>bugs\<close> object
  store of the account database.
\<close>

record world =
  requests :: "request list"
  attachments_coll :: "nat \<rightharpoonup> attachment"
  bugs_coll :: "nat \<rightharpoonup> bug"
  bugs_store :: "nat \<rightharpoonup> bug"

text \<open>
  Modelled from the spec: \<open>BzDeck.host.request\<close>, the remote client, is not among the source
  files. It issues one request and resolves in the parsed response or rejects. The remote
  side is the parameter \<open>host\<close>; the call is recorded in the request log.
\<close>

definition host_request :: "host \<Rightarrow> request \<Rightarrow> world \<Rightarrow> (error + response) \<times> world" where
  "host_request host r w = (host r, w\<lparr>requests := requests w @ [r]\<rparr>)"

text \<open>
  Modelled from the spec: \<open>BzDeck.collections.attachments.set\<close> is not among the source
  files. It replaces or creates the cached entity's backing data under the id.
\<close>

definition attachments_set :: "nat \<Rightarrow> attachment \<Rightarrow> world \<Rightarrow> world" where
  "attachments_set i d w = w\<lparr>attachments_coll := (attachments_coll w)(i \<mapsto> d)\<rparr>"

text \<open>
  Modelled from the spec: \<open>BzDeck.collections.bugs.get\<close> is not among the source files. It
  returns the cached instance if there is one; otherwise it constructs a new uninitialized
  instance, registers it under the id and returns it. An uninitialized instance has no
  field data: its lists are empty or absent.
\<close>

definition uninitialized :: "nat \<Rightarrow> bug" where
  "uninitialized i =
     \<lparr>b_id = i, b_comments = [], b_attachments = None, b_history = [], b_last_visit = None\<rparr>"

definition bugs_get :: "nat \<Rightarrow> world \<Rightarrow> bug option \<times> world" where
  "bugs_get i w =
     (case bugs_coll w i of
        Some b \<Rightarrow> (Some b, w)
      | None \<Rightarrow> (Some (uninitialized i), w\<lparr>bugs_coll := (bugs_coll w)(i \<mapsto> uninitialized i)\<rparr>))"

text \<open>
  Modelled from the spec: \<open>BugModel.save\<close> is not among the source files. It persists the
  in-memory field data to the local store under the entity's id.
\<close>

definition bug_save :: "bug \<Rightarrow> world \<Rightarrow> world" where
  "bug_save b w = w\<lparr>bugs_store := (bugs_store w)(b_id b \<mapsto> b)\<rparr>"

section \<open>The attachment model\<close>

text \<open>
  An \<open>AttachmentModel\<close> instance: \<open>this.id\<close>, assigned once by the constructor, and \<open>this.data\<close>,
  the raw attachment object, which \<open>fetch\<close> may replace with \<open>undefined\<close>. Each method takes
  the instance and the world and returns its outcome (the rejection or the resolved value),
  the instance and the world afterwards.
\<close>

record attachment_model =
  this_id :: nat
  this_data :: "attachment option"

text \<open>
  Modelled from the spec: \<open>BaseModel.proxy\<close> is not among the source files. The proxified
  instance gives transparent reads of the fields of the internal data: a property the
  instance does not have itself is read from \<open>this.data\<close>. An \<open>async\<close> method that returns the
  proxy resolves its promise with it, and resolving a promise with an object reads the
  property \<open>then\<close> of the object. The instance has no \<open>then\<close>, so the read goes to
  \<open>this.data\<close>: it throws a \<open>TypeError\<close> when \<open>this.data\<close> is \<open>undefined\<close>, and the promise is
  rejected; a raw attachment object has no \<open>then\<close>, and the promise is fulfilled with the
  instance.
\<close>

definition return_proxy :: "attachment_model \<Rightarrow> error + attachment_model" where
  "return_proxy this = (case this_data this of None \<Rightarrow> Inl TypeError | Some d \<Rightarrow> Inr this)"

text \<open>
  \<open>fetch\<close>. The record of the response under the id, or \<open>undefined\<close> when there is none, is
  assigned to \<open>this.data\<close> before the proxy is returned.
\<close>

definition fetch :: "host \<Rightarrow> attachment_model \<Rightarrow> world
    \<Rightarrow> (error + attachment_model) \<times> attachment_model \<times> world" where
  "fetch host this w =
     (case host_request host \<lparr>req_path = BugAttachment (this_id this), req_params = None\<rparr> w of
        (Inl e, w') \<Rightarrow> (Inl e, this, w')
      | (Inr result, w') \<Rightarrow>
          (case attachments result of
             None \<Rightarrow> (Inl TypeError, this, w')
           | Some m \<Rightarrow>
               (let this' = this\<lparr>this_data := m (this_id this)\<rparr>
                in (return_proxy this', this', w'))))"

text \<open>
  The loop of \<open>save\<close> over \<open>bug.attachments.entries()\<close>: an entry with this id and falsy data
  gets the data of the model.
\<close>

fun update_stubs :: "nat \<Rightarrow> string option \<Rightarrow> attachment list \<Rightarrow> attachment list" where
  "update_stubs i d [] = []"
| "update_stubs i d (att # atts) =
     (if a_id att = i \<and> \<not> truthy (a_data att) then att\<lparr>a_data := d\<rparr> else att)
       # update_stubs i d atts"

text \<open>
  \<open>save\<close>. Reading \<open>this.data.bug_id\<close> of an instance without data throws. The loop writes
  into the attachment objects of the cached bug instance, so the collection holds the
  updated bug; \<open>bug.save\<close> is not awaited, so it cannot fail this call.
\<close>

definition save :: "attachment_model \<Rightarrow> world
    \<Rightarrow> (error + attachment_model) \<times> attachment_model \<times> world" where
  "save this w =
     (case this_data this of
        None \<Rightarrow> (Inl TypeError, this, w)
      | Some d \<Rightarrow>
          (case bugs_get (a_bug_id d) w of
             (None, w1) \<Rightarrow> (return_proxy this, this, w1)
           | (Some b, w1) \<Rightarrow>
               (case b_attachments b of
                  None \<Rightarrow> (return_proxy this, this, w1)
                | Some atts \<Rightarrow>
                    if length atts = 0 then (return_proxy this, this, w1)
                    else
                      (let b' = b\<lparr>b_attachments :=
                                    Some (update_stubs (this_id this) (a_data d) atts)\<rparr>;
                           w2 = w1\<lparr>bugs_coll := (bugs_coll w1)(a_bug_id d \<mapsto> b')\<rparr>
                       in (return_proxy this, this, bug_save b' w2)))))"

text \<open>
  The decoder worker answers the message \<open>['decode', {str, type}]\<close> with the decoded binary
  and a blob; it is not among the source files and is a parameter here. \<open>decode\<close> is the
  closure of \<open>get_data\<close>: it posts the payload and builds the result from the reply.
\<close>

record reply =
  binary :: string
  blob :: string

type_synonym worker = "string option \<Rightarrow> string \<Rightarrow> reply"

record result =
  r_blob :: string
  r_text :: "string option"
  r_attachment :: attachment_model

definition decode :: "worker \<Rightarrow> attachment_model \<Rightarrow> error + result" where
  "decode worker this =
     (case this_data this of
        None \<Rightarrow> Inl TypeError
      | Some d \<Rightarrow>
          (let rep = worker (a_data d) (a_content_type d);
               text = (if a_is_patch d \<or> startsWith (a_content_type d) ''text/''
                       then Some (binary rep) else None)
           in Inr \<lparr>r_blob = blob rep, r_text = text, r_attachment = this\<rparr>))"

definition unavailable :: "nat \<Rightarrow> error" where
  "unavailable i =
     Error (''The attachment '' @ digits i @ '' could not be retrieved from Bugzilla.'')"

text \<open>
  \<open>get_data\<close>. Everything that goes wrong between the request and the check of the payload
  is caught and thrown again as the one error \<open>unavailable\<close>. After the payload is stored,
  \<open>this.save()\<close> is called and not awaited: its effects on the world happen, its outcome is
  dropped.
\<close>

definition get_data :: "host \<Rightarrow> worker \<Rightarrow> attachment_model \<Rightarrow> world
    \<Rightarrow> (error + result) \<times> attachment_model \<times> world" where
  "get_data host worker this w =
     (case this_data this of
        None \<Rightarrow> (Inl TypeError, this, w)
      | Some d \<Rightarrow>
          if truthy (a_data d) then (decode worker this, this, w)
          else
            (case host_request host
                    \<lparr>req_path = BugAttachment (this_id this),
                     req_params = Some ''include_fields=data''\<rparr> w of
               (Inl e, w1) \<Rightarrow> (Inl (unavailable (this_id this)), this, w1)
             | (Inr result, w1) \<Rightarrow>
                 (case attachments result of
                    None \<Rightarrow> (Inl (unavailable (this_id this)), this, w1)
                  | Some m \<Rightarrow>
                      (let data = (case m (this_id this) of
                                     None \<Rightarrow> None
                                   | Some att \<Rightarrow>
                                       if truthy (a_data att) then a_data att else None)
                       in if \<not> truthy data then (Inl (unavailable (this_id this)), this, w1)
                          else
                            (let d1 = d\<lparr>a_data := data\<rparr>;
                                 this1 = this\<lparr>this_data := Some d1\<rparr>;
                                 w2 = attachments_set (this_id this) d1 w1;
                                 w3 = snd (snd (save this1 w2))
                             in (decode worker this1, this1, w3))))))"

text \<open>Whether the payload is present locally: \<open>this.data.data\<close> is truthy.\<close>

definition payload_present :: "attachment_model \<Rightarrow> bool" where
  "payload_present this =
     (case this_data this of None \<Rightarrow> False | Some d \<Rightarrow> truthy (a_data d))"

text \<open>The request for the payload only.\<close>

definition data_request :: "nat \<Rightarrow> request" where
  "data_request i = \<lparr>req_path = BugAttachment i, req_params = Some ''include_fields=data''\<rparr>"

subsection \<open>Example data\<close>

text \<open>
  Attachment 7 of bug 42, as a stub without payload, with its payload, and with a payload
  and a textual content type; the bug with the
  stub in its attachment list; a world where the bug is cached; a remote side that omits
  the attachment and one that returns it; a worker.
\<close>

definition stub7 :: attachment where
  "stub7 = \<lparr>a_id = 7, a_bug_id = 42, a_creation_time = 1000, a_is_patch = False,
             a_content_type = ''image/png'', a_data = None\<rparr>"

definition full7 :: attachment where
  "full7 = \<lparr>a_id = 7, a_bug_id = 42, a_creation_time = 1000, a_is_patch = False,
             a_content_type = ''image/png'', a_data = Some ''aGVsbG8=''\<rparr>"

definition text7 :: attachment where
  "text7 = \<lparr>a_id = 7, a_bug_id = 42, a_creation_time = 1000, a_is_patch = False,
             a_content_type = ''text/plain'', a_data = Some ''aGVsbG8=''\<rparr>"

definition bug42 :: bug where
  "bug42 = \<lparr>b_id = 42, b_comments = [], b_attachments = Some [stub7], b_history = [],
             b_last_visit = None\<rparr>"

definition world0 :: world where
  "world0 = \<lparr>requests = [], attachments_coll = Map.empty, bugs_coll = [42 \<mapsto> bug42],
              bugs_store = Map.empty\<rparr>"

definition host_omits :: host where
  "host_omits r = Inr \<lparr>attachments = Some Map.empty\<rparr>"

definition host_returns :: host where
  "host_returns r = Inr \<lparr>attachments = Some [7 \<mapsto> full7]\<rparr>"

definition worker0 :: worker where
  "worker0 str type = \<lparr>binary = ''hello'', blob = ''hello''\<rparr>"

section \<open>JavaScript maps and sorting\<close>

text \<open>
  A JavaScript \<open>Map\<close> iterates in insertion order, so it is a list of pairs with distinct keys.
  \<open>set\<close> on a key that is present replaces the value and keeps the position; on a new key it
  appends. \<open>new Map(pairs)\<close> sets the pairs one after the other.
\<close>

fun Map_has :: "'k \<Rightarrow> ('k \<times> 'v) list \<Rightarrow> bool" where
  "Map_has k [] = False"
| "Map_has k ((k', v) # m) = (k' = k \<or> Map_has k m)"

fun Map_get :: "'k \<Rightarrow> ('k \<times> 'v) list \<Rightarrow> 'v option" where
  "Map_get k [] = None"
| "Map_get k ((k', v) # m) = (if k' = k then Some v else Map_get k m)"

fun Map_set :: "'k \<Rightarrow> 'v \<Rightarrow> ('k \<times> 'v) list \<Rightarrow> ('k \<times> 'v) list" where
  "Map_set k v [] = [(k, v)]"
| "Map_set k v ((k', v') # m) = (if k' = k then (k, v) # m else (k', v') # Map_set k v m)"

definition new_Map :: "('k \<times> 'v) list \<Rightarrow> ('k \<times> 'v) list" where
  "new_Map pairs = foldl (\<lambda>m (k, v). Map_set k v m) [] pairs"

text \<open>
  \<open>Array.prototype.sort\<close> belongs to the engine. The language fixes its result only for a
  consistent comparator; for any other the order is implementation-defined. Two engines
  are modelled, each by an insertion sort that decides the way the engine's algorithm
  decides. SpiderMonkey's merge sort keeps an earlier element \<open>p\<close> before a later \<open>x\<close> when
  \<open>comparefn(p, x) <= 0\<close>. V8's TimSort moves a later element \<open>x\<close> before an earlier \<open>p\<close> only when
  \<open>comparefn(x, p) < 0\<close>. \<open>sink\<close> works on the sorted prefix in reverse.
\<close>

datatype engine = SpiderMonkey | V8

fun sink :: "('a \<Rightarrow> 'a \<Rightarrow> bool) \<Rightarrow> 'a \<Rightarrow> 'a list \<Rightarrow> 'a list" where
  "sink swap x [] = [x]"
| "sink swap x (p # ps) = (if swap p x then p # sink swap x ps else x # p # ps)"

definition insertion_sort :: "('a \<Rightarrow> 'a \<Rightarrow> bool) \<Rightarrow> 'a list \<Rightarrow> 'a list" where
  "insertion_sort swap xs = rev (foldl (\<lambda>ps x. sink swap x ps) [] xs)"

definition array_sort :: "engine \<Rightarrow> ('a \<Rightarrow> 'a \<Rightarrow> int) \<Rightarrow> 'a list \<Rightarrow> 'a list" where
  "array_sort engine comparefn xs =
     (case engine of
        SpiderMonkey \<Rightarrow> insertion_sort (\<lambda>p x. \<not> comparefn p x \<le> 0) xs
      | V8 \<Rightarrow> insertion_sort (\<lambda>p x. comparefn x p < 0) xs)"

section \<open>The bug timeline view\<close>

text \<open>
  The data of one timeline entry is a \<open>Map\<close> from the keys \<open>comment\<close>, \<open>attachment\<close>, \<open>history\<close>,
  \<open>time\<close> and \<open>rendering\<close> to values; \<open>entries\<close> is a \<open>Map\<close> from time to entry data.
\<close>

datatype entry_value =
  Comment comment | Attachment attachment | History history | Time int | Flag bool

type_synonym entry_data = "(string \<times> entry_value) list"

type_synonym entries = "(int \<times> entry_data) list"

definition comment_entries :: "comment list \<Rightarrow> entries" where
  "comment_entries cs =
     new_Map (map (\<lambda>c. (c_creation_time c, new_Map [(''comment'', Comment c)])) cs)"

text \<open>
  The loop over the attachments calls \<open>set\<close> on the result of \<open>entries.get\<close>, which is
  \<open>undefined\<close> when no entry has the attachment's time: a \<open>TypeError\<close>.
\<close>

fun add_attachments :: "attachment list \<Rightarrow> entries \<Rightarrow> error + entries" where
  "add_attachments [] es = Inr es"
| "add_attachments (a # as) es =
     (case Map_get (a_creation_time a) es of
        None \<Rightarrow> Inl TypeError
      | Some d \<Rightarrow>
          add_attachments as
            (Map_set (a_creation_time a) (Map_set ''attachment'' (Attachment a) d) es))"

fun add_history :: "history list \<Rightarrow> entries \<Rightarrow> error + entries" where
  "add_history [] es = Inr es"
| "add_history (h # hs) es =
     (if Map_has (h_when h) es then
        (case Map_get (h_when h) es of
           None \<Rightarrow> Inl TypeError
         | Some d \<Rightarrow>
             add_history hs (Map_set (h_when h) (Map_set ''history'' (History h) d) es))
      else add_history hs (Map_set (h_when h) (new_Map [(''history'', History h)]) es))"

text \<open>The comparator of the sort, \<open>(a, b) => a[0] > b[0]\<close>: a boolean, read as 1 or 0.\<close>

definition by_time :: "int \<times> entry_data \<Rightarrow> int \<times> entry_data \<Rightarrow> int" where
  "by_time a b = (if fst a > fst b then 1 else 0)"

text \<open>
  The loop that collapses the read comments. It stores the time in each entry, counts the
  entries before the last visit that hold a comment and remembers the time of the last of
  them, and flags every other entry for rendering.
\<close>

record marking =
  m_entries :: entries
  read_comments_num :: nat
  last_comment_time :: "int option"

definition before_last_visit :: "bool \<Rightarrow> int option \<Rightarrow> int \<Rightarrow> bool" where
  "before_last_visit delayed last_visit time =
     (\<not> delayed \<and> (case last_visit of None \<Rightarrow> False | Some l \<Rightarrow> time < l))"

fun collapse_read :: "bool \<Rightarrow> int option \<Rightarrow> entries \<Rightarrow> marking \<Rightarrow> marking" where
  "collapse_read delayed lv [] m = m"
| "collapse_read delayed lv ((time, data) # es) m =
     (let data1 = Map_set ''time'' (Time time) data in
      if before_last_visit delayed lv time then
        (if Map_has ''comment'' data1 then
           collapse_read delayed lv es
             (m\<lparr>m_entries := m_entries m @ [(time, data1)],
                read_comments_num := read_comments_num m + 1,
                last_comment_time := Some time\<rparr>)
         else collapse_read delayed lv es (m\<lparr>m_entries := m_entries m @ [(time, data1)]\<rparr>))
      else
        collapse_read delayed lv es
          (m\<lparr>m_entries := m_entries m @ [(time, Map_set ''rendering'' (Flag True) data1)]\<rparr>))"

text \<open>
  The entries handed to \<open>generate_entries\<close> at once: those flagged, and those not before
  \<open>last_comment_time\<close>. A comparison with \<open>undefined\<close> is false.
\<close>

definition rendered_at_once :: "int option \<Rightarrow> int \<times> entry_data \<Rightarrow> bool" where
  "rendered_at_once lct e =
     (Map_has ''rendering'' (snd e) \<or> (case lct of None \<Rightarrow> False | Some l \<Rightarrow> fst e \<ge> l))"

text \<open>
  The view after the constructor: the sorted and marked entries, the entries rendered at
  once, and the number on the expander, when there is one.
\<close>

record view =
  v_entries :: entries
  v_data_arr :: "entry_data list"
  v_expander :: "nat option"

definition BugTimelineView :: "engine \<Rightarrow> bug \<Rightarrow> bool \<Rightarrow> error + view" where
  "BugTimelineView engine bug delayed =
     (case b_attachments bug of
        None \<Rightarrow> Inl TypeError
      | Some atts \<Rightarrow>
          ebind (add_attachments atts (comment_entries (b_comments bug))) (\<lambda>es.
          ebind (add_history (b_history bug) es) (\<lambda>es.
            (let sorted = array_sort engine by_time es;
                 m = collapse_read delayed (b_last_visit bug) sorted
                       \<lparr>m_entries = [], read_comments_num = 0, last_comment_time = None\<rparr>;
                 data_arr = map snd (filter (rendered_at_once (last_comment_time m)) (m_entries m))
             in Inr \<lparr>v_entries = m_entries m,
                     v_data_arr = data_arr,
                     v_expander = (if read_comments_num m > 1
                                   then Some (read_comments_num m - 1) else None)\<rparr>))))"

subsection \<open>What the collapsing loop computes\<close>

text \<open>
  The loop, entry by entry: \<open>mark_entry\<close> is what it does to the data of one entry, and
  \<open>is_read_comment\<close> says whether it counts the entry as a read comment. \<open>last_read_comment\<close>
  is the time of the last read comment of a marked timeline, in timeline order.
\<close>

definition mark_entry :: "bool \<Rightarrow> int option \<Rightarrow> int \<times> entry_data \<Rightarrow> int \<times> entry_data" where
  "mark_entry delayed lv e =
     (if before_last_visit delayed lv (fst e)
      then (fst e, Map_set ''time'' (Time (fst e)) (snd e))
      else (fst e, Map_set ''rendering'' (Flag True) (Map_set ''time'' (Time (fst e)) (snd e))))"

definition is_read_comment :: "bool \<Rightarrow> int option \<Rightarrow> int \<times> entry_data \<Rightarrow> bool" where
  "is_read_comment delayed lv e =
     (before_last_visit delayed lv (fst e) \<and> Map_has ''comment'' (snd e))"

definition last_time :: "int option \<Rightarrow> entries \<Rightarrow> int option" where
  "last_time start es = (case es of [] \<Rightarrow> start | _ \<Rightarrow> Some (fst (last es)))"

definition last_read_comment :: "int \<Rightarrow> entries \<Rightarrow> int option" where
  "last_read_comment l es = last_time None (filter (is_read_comment False (Some l)) es)"

text \<open>No entry of a timeline carries the rendering flag.\<close>

definition unflagged :: "entries \<Rightarrow> bool" where
  "unflagged es = (\<forall>e \<in> set es. \<not> Map_has ''rendering'' (snd e))"




subsection \<open>Example timelines\<close>

text \<open>
  Two comments and a history entry; and bugs built from them and from attachment 7, which
  was created at time 1000.
\<close>

definition c1000 :: comment where
  "c1000 = \<lparr>c_count = 0, c_text = ''first'', c_creation_time = 1000\<rparr>"

definition c2000 :: comment where
  "c2000 = \<lparr>c_count = 1, c_text = ''second'', c_creation_time = 2000\<rparr>"



definition h6000 :: history where
  "h6000 = \<lparr>h_who = ''dev@example.com'', h_when = 6000\<rparr>"

text \<open>An attachment whose creation time is the time of no comment.\<close>

definition bug_lone_attachment :: bug where
  "bug_lone_attachment =
     \<lparr>b_id = 42, b_comments = [c2000], b_attachments = Some [stub7], b_history = [],
      b_last_visit = None\<rparr>"



text \<open>Two comments read before the last visit at time 5000 and a change after it.\<close>

definition bug_visited :: bug where
  "bug_visited =
     \<lparr>b_id = 42, b_comments = [c1000, c2000], b_attachments = Some [], b_history = [h6000],
      b_last_visit = Some 5000\<rparr>"

section \<open>Schema upgrade: results\<close>

lemma create_initial_stores_empty: "create_initial_stores Map.empty = Inr schema_v1"
  by (simp add: create_initial_stores_def createObjectStore_def createIndex_def ebind_def
      schema_v1_def users_store_def prefs_store_def)

lemma drop_alias_index_v1: "drop_alias_index schema_v1 = Inr schema_v2"
  by (simp add: drop_alias_index_def deleteIndex_def schema_v1_def schema_v2_def fun_upd_twist)

text \<open>
  Claim C7. Upgrading an empty database from version 0 yields exactly the version-2 schema;
  the first block alone yields the version-1 schema; and upgrading a database in the
  version-1 shape from version 1 yields exactly the version-2 schema again. In the
  version-2 schema the \<open>bugs\<close> store has no \<open>alias\<close> index.
\<close>

theorem schema_upgrade_paths_agree:
  "onupgradeneeded 0 Map.empty = Inr schema_v2
   \<and> create_initial_stores Map.empty = Inr schema_v1
   \<and> onupgradeneeded 1 schema_v1 = Inr schema_v2
   \<and> dom schema_v2 = {''bugs'', ''users'', ''prefs''}
   \<and> map_option keyPath (schema_v2 ''bugs'') = Some ''id''
   \<and> map_option (\<lambda>s. indexes s ''alias'') (schema_v2 ''bugs'') = Some None
   \<and> map_option keyPath (schema_v2 ''users'') = Some ''name''
   \<and> map_option (\<lambda>s. indexes s ''id'') (schema_v2 ''users'')
       = Some (Some \<lparr>index_keyPath = ''id'', unique = True\<rparr>)
   \<and> map_option keyPath (schema_v2 ''prefs'') = Some ''name''"
proof -
  have a: "onupgradeneeded 0 Map.empty = Inr schema_v2"
    by (simp add: onupgradeneeded_def ebind_def create_initial_stores_empty drop_alias_index_v1)
  have b: "onupgradeneeded 1 schema_v1 = Inr schema_v2"
    by (simp add: onupgradeneeded_def ebind_def drop_alias_index_v1)
  have c: "dom schema_v2 = {''bugs'', ''users'', ''prefs''}"
    by (auto simp: schema_v2_def)
  show ?thesis
    using a b c create_initial_stores_empty
    by (simp add: schema_v2_def users_store_def prefs_store_def)
qed

section \<open>Attachment model: results\<close>

subsection \<open>fetch\<close>

text \<open>
  Claim C1, at the input where it fails. The response is a mapping without a record under
  the id of the instance. The data of the instance is \<open>undefined\<close> afterwards, whatever it
  was before: the last data is overwritten. The call does reject, but only with the
  \<open>TypeError\<close> of returning the proxy of an instance without data, after the assignment.
\<close>

theorem fetch_omitted_entity:
  "fetch host_omits this w =
     (Inl TypeError, this\<lparr>this_data := None\<rparr>,
      w\<lparr>requests := requests w @
           [\<lparr>req_path = BugAttachment (this_id this), req_params = None\<rparr>]\<rparr>)"
  by (simp add: fetch_def host_request_def host_omits_def return_proxy_def Let_def)

subsection \<open>get_data\<close>

lemma get_data_present:
  assumes "payload_present this"
  shows "get_data host wk this w = (decode wk this, this, w)"
  using assms by (simp add: get_data_def payload_present_def split: option.splits)

lemma get_data_success_present:
  assumes "get_data host wk this w = (Inr r, this1, w1)"
  shows "payload_present this1"
  using assms
  by (auto simp: get_data_def decode_def host_request_def payload_present_def Let_def
      split: option.splits if_splits sum.splits prod.splits)

text \<open>
  Claim C4. The instance has no payload, the request for the payload resolves, and the
  response has no record under the id or a record without payload. Then \<open>get_data\<close> rejects
  with the error \<open>unavailable\<close> of this id; the instance is unchanged, so its payload is still
  absent; and the world differs only by the one request in the log.
\<close>

theorem get_data_no_payload:
  assumes "this_data this = Some d" and "\<not> truthy (a_data d)"
    and "host (data_request (this_id this)) = Inr res"
    and "attachments res = Some m"
    and "case m (this_id this) of None \<Rightarrow> True | Some att \<Rightarrow> \<not> truthy (a_data att)"
  shows "get_data host wk this w =
     (Inl (unavailable (this_id this)), this,
      w\<lparr>requests := requests w @ [data_request (this_id this)]\<rparr>)"
  using assms
  by (auto simp: get_data_def host_request_def data_request_def Let_def truthy_def
      split: option.splits)

theorem get_data_no_payload_witness:
  "this_data \<lparr>this_id = 7, this_data = Some stub7\<rparr> = Some stub7
   \<and> \<not> truthy (a_data stub7)
   \<and> host_omits (data_request 7) = Inr \<lparr>attachments = Some Map.empty\<rparr>
   \<and> get_data host_omits worker0 \<lparr>this_id = 7, this_data = Some stub7\<rparr> world0 =
       (Inl (unavailable 7), \<lparr>this_id = 7, this_data = Some stub7\<rparr>,
        world0\<lparr>requests := requests world0 @ [data_request 7]\<rparr>)"
  using get_data_no_payload [of "\<lparr>this_id = 7, this_data = Some stub7\<rparr>" stub7 host_omits
      "\<lparr>attachments = Some Map.empty\<rparr>" Map.empty worker0 world0]
  by (simp add: stub7_def host_omits_def truthy_def)

text \<open>
  Claim C5. When the payload is present, \<open>get_data\<close> is the decoding alone: the instance
  and the world, and with it the request log, are unchanged. So whenever the payload is
  present after a first call, a second call leaves the request log as the first call left
  it; and a first call that resolves does leave the payload present.
\<close>

theorem get_data_present_no_request:
  "(payload_present this \<longrightarrow> get_data host wk this w = (decode wk this, this, w))
   \<and> (get_data host wk this w = (r1, this1, w1) \<and> payload_present this1
        \<longrightarrow> get_data host2 wk this1 w1 = (decode wk this1, this1, w1)
            \<and> requests (snd (snd (get_data host2 wk this1 w1))) = requests w1)
   \<and> (get_data host wk this w = (Inr r, this1, w1) \<longrightarrow> payload_present this1)"
  by (simp add: get_data_present get_data_success_present)

lemma get_data_fetches:
  assumes "this_data this = Some d" and "\<not> truthy (a_data d)"
    and "host (data_request (this_id this)) = Inr res"
    and "attachments res = Some m"
    and "m (this_id this) = Some att" and "truthy (a_data att)"
  shows "get_data host wk this w =
     (decode wk (this\<lparr>this_data := Some (d\<lparr>a_data := a_data att\<rparr>)\<rparr>),
      this\<lparr>this_data := Some (d\<lparr>a_data := a_data att\<rparr>)\<rparr>,
      snd (snd (save (this\<lparr>this_data := Some (d\<lparr>a_data := a_data att\<rparr>)\<rparr>)
        (attachments_set (this_id this) (d\<lparr>a_data := a_data att\<rparr>)
           (w\<lparr>requests := requests w @ [data_request (this_id this)]\<rparr>)))))"
  using assms
  by (simp add: get_data_def host_request_def data_request_def Let_def)

lemma get_data_text_iff:
  assumes "get_data host wk this w = (Inr r, this1, w1)" and "this_data this = Some d"
  shows "(r_text r \<noteq> None) = (a_is_patch d \<or> startsWith (a_content_type d) ''text/'')"
  using assms
  by (auto simp: get_data_def decode_def host_request_def Let_def
      split: option.splits if_splits sum.splits prod.splits)

text \<open>
  Claim C8. An attachment with its payload: \<open>get_data\<close> resolves, and the text of the result
  is the decoded binary when the attachment is a patch or its content type starts with
  \<open>text/\<close>, and absent otherwise. An attachment without payload whose request returns one:
  the same, on the payload of the response. And whenever \<open>get_data\<close> resolves, the text is
  present if and only if the attachment is a patch or its content type starts with \<open>text/\<close>.
\<close>

theorem get_data_text:
  "(this_data this = Some d \<and> truthy (a_data d) \<longrightarrow>
      fst (get_data host wk this w) =
        Inr \<lparr>r_blob = blob (wk (a_data d) (a_content_type d)),
             r_text = (if a_is_patch d \<or> startsWith (a_content_type d) ''text/''
                       then Some (binary (wk (a_data d) (a_content_type d))) else None),
             r_attachment = this\<rparr>)
   \<and> (this_data this = Some d \<and> \<not> truthy (a_data d)
        \<and> host (data_request (this_id this)) = Inr res \<and> attachments res = Some m
        \<and> m (this_id this) = Some att \<and> truthy (a_data att) \<longrightarrow>
      fst (get_data host wk this w) =
        Inr \<lparr>r_blob = blob (wk (a_data att) (a_content_type d)),
             r_text = (if a_is_patch d \<or> startsWith (a_content_type d) ''text/''
                       then Some (binary (wk (a_data att) (a_content_type d))) else None),
             r_attachment = this\<lparr>this_data := Some (d\<lparr>a_data := a_data att\<rparr>)\<rparr>\<rparr>)
   \<and> (get_data host wk this w = (Inr r, this1, w1) \<and> this_data this = Some d \<longrightarrow>
        (r_text r \<noteq> None) = (a_is_patch d \<or> startsWith (a_content_type d) ''text/''))"
proof -
  have a: "fst (get_data host wk this w) =
        Inr \<lparr>r_blob = blob (wk (a_data d) (a_content_type d)),
             r_text = (if a_is_patch d \<or> startsWith (a_content_type d) ''text/''
                       then Some (binary (wk (a_data d) (a_content_type d))) else None),
             r_attachment = this\<rparr>"
    if "this_data this = Some d" and "truthy (a_data d)"
  proof -
    from that have "payload_present this" by (simp add: payload_present_def)
    then have "get_data host wk this w = (decode wk this, this, w)"
      by (rule get_data_present)
    with that(1) show ?thesis by (simp add: decode_def Let_def)
  qed
  have b: "fst (get_data host wk this w) =
        Inr \<lparr>r_blob = blob (wk (a_data att) (a_content_type d)),
             r_text = (if a_is_patch d \<or> startsWith (a_content_type d) ''text/''
                       then Some (binary (wk (a_data att) (a_content_type d))) else None),
             r_attachment = this\<lparr>this_data := Some (d\<lparr>a_data := a_data att\<rparr>)\<rparr>\<rparr>"
    if "this_data this = Some d" and "\<not> truthy (a_data d)"
      and "host (data_request (this_id this)) = Inr res" and "attachments res = Some m"
      and "m (this_id this) = Some att" and "truthy (a_data att)"
    using that get_data_fetches [of this d host res m att wk w]
    by (simp add: decode_def Let_def)
  have c: "(r_text r \<noteq> None) = (a_is_patch d \<or> startsWith (a_content_type d) ''text/'')"
    if "get_data host wk this w = (Inr r, this1, w1)" and "this_data this = Some d"
    using that by (rule get_data_text_iff)
  from a b c show ?thesis by blast
qed

subsection \<open>save\<close>

lemma update_stubs_length: "length (update_stubs i d atts) = length atts"
  by (induction atts) auto

lemma update_stubs_truthy:
  assumes "truthy d"
  shows "att \<in> set (update_stubs i d atts) \<Longrightarrow> a_id att = i \<Longrightarrow> truthy (a_data att)"
proof (induction atts)
  case Nil
  then show ?case by simp
next
  case (Cons x xs)
  show ?case
  proof (cases "att \<in> set (update_stubs i d xs)")
    case True
    with Cons show ?thesis by blast
  next
    case False
    with Cons.prems(1)
    have eq: "att = (if a_id x = i \<and> \<not> truthy (a_data x) then x\<lparr>a_data := d\<rparr> else x)"
      by simp
    show ?thesis
    proof (cases "a_id x = i \<and> \<not> truthy (a_data x)")
      case True
      with eq have "a_data att = d" by simp
      with assms show ?thesis by simp
    next
      case False
      with eq have "att = x" by simp
      with False Cons.prems(2) show ?thesis by blast
    qed
  qed
qed

lemma update_stubs_stub:
  "stub \<in> set atts \<Longrightarrow> a_id stub = i \<Longrightarrow> \<not> truthy (a_data stub)
   \<Longrightarrow> stub\<lparr>a_data := d\<rparr> \<in> set (update_stubs i d atts)"
  by (induction atts) auto

lemma save_updates_parent:
  assumes "this_data this = Some d" "bugs_coll w (a_bug_id d) = Some b"
    "b_attachments b = Some atts" "atts \<noteq> []"
  shows "save this w =
     (Inr this, this,
      w\<lparr>bugs_coll := (bugs_coll w)(a_bug_id d \<mapsto>
            b\<lparr>b_attachments := Some (update_stubs (this_id this) (a_data d) atts)\<rparr>),
        bugs_store := (bugs_store w)(b_id b \<mapsto>
            b\<lparr>b_attachments := Some (update_stubs (this_id this) (a_data d) atts)\<rparr>)\<rparr>)"
  using assms by (simp add: save_def bugs_get_def bug_save_def return_proxy_def Let_def)

lemma save_absent_parent:
  assumes "this_data this = Some d" "bugs_coll w (a_bug_id d) = None"
  shows "save this w =
     (Inr this, this,
      w\<lparr>bugs_coll := (bugs_coll w)(a_bug_id d \<mapsto> uninitialized (a_bug_id d))\<rparr>)"
  using assms by (simp add: save_def bugs_get_def uninitialized_def return_proxy_def)

lemma save_no_attachments:
  assumes "this_data this = Some d" "bugs_coll w (a_bug_id d) = Some b"
    "b_attachments b = None \<or> b_attachments b = Some []"
  shows "save this w = (Inr this, this, w)"
  using assms by (auto simp: save_def bugs_get_def return_proxy_def)

text \<open>
  Claim C6. The model has a payload, its parent bug is cached, and the bug's attachment
  list holds an entry with this id and without payload. Then \<open>save\<close> resolves, the bug is
  written to the store, the stored bug is the cached one, its list has the length it had,
  the entry now carries the payload of the model, and every entry of the list with this id
  has a payload.
\<close>

theorem save_fills_parent_stub:
  assumes "this_data this = Some d" and "truthy (a_data d)"
    and "bugs_coll w (a_bug_id d) = Some b" and "b_attachments b = Some atts"
    and "stub \<in> set atts" and "a_id stub = this_id this" and "\<not> truthy (a_data stub)"
    and "save this w = (r, this1, w1)"
  shows "r = Inr this \<and>
    (\<exists>b1 atts1. bugs_store w1 (b_id b) = Some b1 \<and> bugs_coll w1 (a_bug_id d) = Some b1
       \<and> b_attachments b1 = Some atts1 \<and> length atts1 = length atts
       \<and> stub\<lparr>a_data := a_data d\<rparr> \<in> set atts1
       \<and> (\<forall>att \<in> set atts1. a_id att = this_id this \<longrightarrow> truthy (a_data att)))"
proof -
  from assms(5) have ne: "atts \<noteq> []" by auto
  let ?atts1 = "update_stubs (this_id this) (a_data d) atts"
  let ?b1 = "b\<lparr>b_attachments := Some ?atts1\<rparr>"
  from save_updates_parent[OF assms(1) assms(3) assms(4) ne] assms(8)
  have r: "r = Inr this" and w1: "w1 = w\<lparr>bugs_coll := (bugs_coll w)(a_bug_id d \<mapsto> ?b1),
        bugs_store := (bugs_store w)(b_id b \<mapsto> ?b1)\<rparr>"
    by simp_all
  have "bugs_store w1 (b_id b) = Some ?b1" "bugs_coll w1 (a_bug_id d) = Some ?b1"
    "b_attachments ?b1 = Some ?atts1" "length ?atts1 = length atts"
    by (simp_all add: w1 update_stubs_length)
  moreover have "stub\<lparr>a_data := a_data d\<rparr> \<in> set ?atts1"
    using assms(5,6,7) by (rule update_stubs_stub)
  moreover have "\<forall>att \<in> set ?atts1. a_id att = this_id this \<longrightarrow> truthy (a_data att)"
    using update_stubs_truthy[OF assms(2)] by blast
  ultimately show ?thesis using r by blast
qed

lemma stub7_filled: "stub7\<lparr>a_data := a_data full7\<rparr> = full7"
  by (simp add: stub7_def full7_def)

lemma save_full7_world0:
  "save \<lparr>this_id = 7, this_data = Some full7\<rparr> world0 =
     (Inr \<lparr>this_id = 7, this_data = Some full7\<rparr>, \<lparr>this_id = 7, this_data = Some full7\<rparr>,
      world0\<lparr>bugs_coll := [42 \<mapsto> bug42\<lparr>b_attachments := Some [full7]\<rparr>],
             bugs_store := [42 \<mapsto> bug42\<lparr>b_attachments := Some [full7]\<rparr>]\<rparr>)"
proof -
  let ?T = "\<lparr>this_id = 7, this_data = Some full7\<rparr>"
  have bid: "a_bug_id full7 = 42" by (simp add: full7_def)
  have s: "save ?T world0 = (Inr ?T, ?T,
      world0\<lparr>bugs_coll := (bugs_coll world0)(a_bug_id full7 \<mapsto>
            bug42\<lparr>b_attachments := Some (update_stubs (this_id ?T) (a_data full7) [stub7])\<rparr>),
        bugs_store := (bugs_store world0)(b_id bug42 \<mapsto>
            bug42\<lparr>b_attachments := Some (update_stubs (this_id ?T) (a_data full7) [stub7])\<rparr>)\<rparr>)"
    by (rule save_updates_parent) (simp_all add: world0_def bid bug42_def)
  have u: "update_stubs (this_id ?T) (a_data full7) [stub7] = [full7]"
    by (simp add: stub7_filled) (simp add: stub7_def truthy_def)
  show ?thesis
    unfolding s u by (simp add: world0_def bid) (simp add: bug42_def)
qed

theorem save_fills_parent_stub_witness:
  "this_data \<lparr>this_id = 7, this_data = Some full7\<rparr> = Some full7
   \<and> truthy (a_data full7)
   \<and> bugs_coll world0 (a_bug_id full7) = Some bug42
   \<and> b_attachments bug42 = Some [stub7]
   \<and> a_id stub7 = 7
   \<and> \<not> truthy (a_data stub7)
   \<and> (\<exists>b1 atts1. bugs_store
          (world0\<lparr>bugs_coll := [42 \<mapsto> bug42\<lparr>b_attachments := Some [full7]\<rparr>],
                  bugs_store := [42 \<mapsto> bug42\<lparr>b_attachments := Some [full7]\<rparr>]\<rparr>)
          (b_id bug42) = Some b1
        \<and> b_attachments b1 = Some atts1 \<and> length atts1 = length [stub7]
        \<and> stub7\<lparr>a_data := a_data full7\<rparr> \<in> set atts1)"
proof -
  have h1: "this_data \<lparr>this_id = 7, this_data = Some full7\<rparr> = Some full7" by simp
  have h2: "truthy (a_data full7)" by (simp add: full7_def truthy_def)
  have h3: "bugs_coll world0 (a_bug_id full7) = Some bug42"
    by (simp add: world0_def full7_def)
  have h4: "b_attachments bug42 = Some [stub7]" by (simp add: bug42_def)
  have h5: "stub7 \<in> set [stub7]" by simp
  have h6: "a_id stub7 = this_id \<lparr>this_id = 7, this_data = Some full7\<rparr>"
    by (simp add: stub7_def)
  have h7: "\<not> truthy (a_data stub7)" by (simp add: stub7_def truthy_def)
  from save_fills_parent_stub [OF h1 h2 h3 h4 h5 h6 h7 save_full7_world0]
  have "\<exists>b1 atts1. bugs_store
          (world0\<lparr>bugs_coll := [42 \<mapsto> bug42\<lparr>b_attachments := Some [full7]\<rparr>],
                  bugs_store := [42 \<mapsto> bug42\<lparr>b_attachments := Some [full7]\<rparr>]\<rparr>)
          (b_id bug42) = Some b1
        \<and> b_attachments b1 = Some atts1 \<and> length atts1 = length [stub7]
        \<and> stub7\<lparr>a_data := a_data full7\<rparr> \<in> set atts1"
    by blast
  with h1 h2 h3 h4 h6 h7 show ?thesis by simp
qed

text \<open>
  Claim C10. The model has data, and its parent bug is not in the bug collection, or is
  cached with no attachment list or an empty one. Then \<open>save\<close> resolves in the instance,
  writes nothing to the store, issues no request, and leaves the instance, the attachment
  collection and every cached bug as they were; the one thing that can be new in the bug
  collection is an uninitialized handle, which carries no data.
\<close>

theorem save_without_parent_attachments:
  assumes "this_data this = Some d"
    and "case bugs_coll w (a_bug_id d) of None \<Rightarrow> True
         | Some b \<Rightarrow> b_attachments b = None \<or> b_attachments b = Some []"
    and "save this w = (r, this1, w1)"
  shows "r = Inr this \<and> this1 = this \<and> bugs_store w1 = bugs_store w
    \<and> requests w1 = requests w \<and> attachments_coll w1 = attachments_coll w
    \<and> (\<forall>i b. bugs_coll w i = Some b \<longrightarrow> bugs_coll w1 i = Some b)
    \<and> (\<forall>i. bugs_coll w i = None
          \<longrightarrow> bugs_coll w1 i = None \<or> bugs_coll w1 i = Some (uninitialized i))"
proof (cases "bugs_coll w (a_bug_id d)")
  case None
  from save_absent_parent[OF assms(1) None] assms(3)
  have "r = Inr this" "this1 = this"
    "w1 = w\<lparr>bugs_coll := (bugs_coll w)(a_bug_id d \<mapsto> uninitialized (a_bug_id d))\<rparr>"
    by simp_all
  with None show ?thesis by simp
next
  case (Some b)
  with assms(2) have "b_attachments b = None \<or> b_attachments b = Some []" by simp
  from save_no_attachments[OF assms(1) Some this] assms(3)
  have "r = Inr this" "this1 = this" "w1 = w" by simp_all
  then show ?thesis by simp
qed

theorem save_without_parent_attachments_witness:
  "this_data \<lparr>this_id = 7, this_data = Some full7\<rparr> = Some full7
   \<and> bugs_coll (world0\<lparr>bugs_coll := Map.empty\<rparr>) (a_bug_id full7) = None
   \<and> fst (save \<lparr>this_id = 7, this_data = Some full7\<rparr> (world0\<lparr>bugs_coll := Map.empty\<rparr>))
       = Inr \<lparr>this_id = 7, this_data = Some full7\<rparr>
   \<and> bugs_store (snd (snd (save \<lparr>this_id = 7, this_data = Some full7\<rparr>
         (world0\<lparr>bugs_coll := Map.empty\<rparr>)))) = bugs_store (world0\<lparr>bugs_coll := Map.empty\<rparr>)"
proof -
  let ?T = "\<lparr>this_id = 7, this_data = Some full7\<rparr>"
  let ?w = "world0\<lparr>bugs_coll := Map.empty\<rparr>"
  have h1: "this_data ?T = Some full7" by simp
  have h2: "case bugs_coll ?w (a_bug_id full7) of None \<Rightarrow> True
         | Some b \<Rightarrow> b_attachments b = None \<or> b_attachments b = Some []"
    by simp
  have h3: "save ?T ?w = (fst (save ?T ?w), fst (snd (save ?T ?w)),
      snd (snd (save ?T ?w)))"
    by simp
  from save_without_parent_attachments [OF h1 h2 h3]
  show ?thesis by simp
qed

text \<open>Witnesses of the claims on \<open>get_data\<close>, at attachment 7.\<close>

lemma decode_full7:
  "decode worker0 \<lparr>this_id = 7, this_data = Some full7\<rparr> =
     Inr \<lparr>r_blob = ''hello'', r_text = None,
          r_attachment = \<lparr>this_id = 7, this_data = Some full7\<rparr>\<rparr>"
  by (simp add: decode_def worker0_def full7_def)

lemma get_data_stub7_world0:
  "get_data host_returns worker0 \<lparr>this_id = 7, this_data = Some stub7\<rparr> world0 =
     (Inr \<lparr>r_blob = ''hello'', r_text = None,
           r_attachment = \<lparr>this_id = 7, this_data = Some full7\<rparr>\<rparr>,
      \<lparr>this_id = 7, this_data = Some full7\<rparr>,
      \<lparr>requests = [data_request 7], attachments_coll = [7 \<mapsto> full7],
       bugs_coll = [42 \<mapsto> bug42\<lparr>b_attachments := Some [full7]\<rparr>],
       bugs_store = [42 \<mapsto> bug42\<lparr>b_attachments := Some [full7]\<rparr>]\<rparr>)"
proof -
  let ?this1 = "\<lparr>this_id = 7, this_data = Some full7\<rparr>"
  let ?w2 = "attachments_set 7 full7 (world0\<lparr>requests := requests world0 @ [data_request 7]\<rparr>)"
  have a: "\<not> truthy (a_data stub7)" by (simp add: stub7_def truthy_def)
  have b: "truthy (a_data full7)" by (simp add: full7_def truthy_def)
  have g: "get_data host_returns worker0 \<lparr>this_id = 7, this_data = Some stub7\<rparr> world0 =
     (decode worker0 ?this1, ?this1, snd (snd (save ?this1 ?w2)))"
    using get_data_fetches [of "\<lparr>this_id = 7, this_data = Some stub7\<rparr>" stub7 host_returns
        "\<lparr>attachments = Some [7 \<mapsto> full7]\<rparr>" "[7 \<mapsto> full7]" full7 worker0 world0] a b
    by (simp add: host_returns_def stub7_filled)
  have bid: "a_bug_id full7 = 42" by (simp add: full7_def)
  have s: "save ?this1 ?w2 = (Inr ?this1, ?this1,
      ?w2\<lparr>bugs_coll := (bugs_coll ?w2)(a_bug_id full7 \<mapsto>
            bug42\<lparr>b_attachments := Some (update_stubs (this_id ?this1) (a_data full7) [stub7])\<rparr>),
        bugs_store := (bugs_store ?w2)(b_id bug42 \<mapsto>
            bug42\<lparr>b_attachments := Some (update_stubs (this_id ?this1) (a_data full7) [stub7])\<rparr>)\<rparr>)"
    by (rule save_updates_parent)
       (simp_all add: attachments_set_def world0_def bid bug42_def)
  have u: "update_stubs (this_id ?this1) (a_data full7) [stub7] = [full7]"
    using a by (simp add: stub7_filled) (simp add: stub7_def)
  show ?thesis
    unfolding g s u decode_full7
    by (simp add: attachments_set_def world0_def bid) (simp add: bug42_def)
qed

theorem get_data_present_no_request_witness:
  "get_data host_returns worker0 \<lparr>this_id = 7, this_data = Some stub7\<rparr> world0 =
     (Inr \<lparr>r_blob = ''hello'', r_text = None,
           r_attachment = \<lparr>this_id = 7, this_data = Some full7\<rparr>\<rparr>,
      \<lparr>this_id = 7, this_data = Some full7\<rparr>,
      \<lparr>requests = [data_request 7], attachments_coll = [7 \<mapsto> full7],
       bugs_coll = [42 \<mapsto> bug42\<lparr>b_attachments := Some [full7]\<rparr>],
       bugs_store = [42 \<mapsto> bug42\<lparr>b_attachments := Some [full7]\<rparr>]\<rparr>)
   \<and> payload_present \<lparr>this_id = 7, this_data = Some full7\<rparr>
   \<and> requests (snd (snd (get_data host_omits worker0 \<lparr>this_id = 7, this_data = Some full7\<rparr>
         \<lparr>requests = [data_request 7], attachments_coll = [7 \<mapsto> full7],
          bugs_coll = [42 \<mapsto> bug42\<lparr>b_attachments := Some [full7]\<rparr>],
          bugs_store = [42 \<mapsto> bug42\<lparr>b_attachments := Some [full7]\<rparr>]\<rparr>)))
       = [data_request 7]"
proof -
  let ?T1 = "\<lparr>this_id = 7, this_data = Some full7\<rparr>"
  let ?W1 = "\<lparr>requests = [data_request 7], attachments_coll = [7 \<mapsto> full7],
       bugs_coll = [42 \<mapsto> bug42\<lparr>b_attachments := Some [full7]\<rparr>],
       bugs_store = [42 \<mapsto> bug42\<lparr>b_attachments := Some [full7]\<rparr>]\<rparr>"
  have present: "payload_present ?T1"
    by (simp add: payload_present_def full7_def truthy_def)
  note t = get_data_present_no_request [of "\<lparr>this_id = 7, this_data = Some stub7\<rparr>"
      host_returns worker0 world0
      "Inr \<lparr>r_blob = ''hello'', r_text = None, r_attachment = ?T1\<rparr>" ?T1 ?W1 host_omits]
  from t [THEN conjunct2, THEN conjunct1] get_data_stub7_world0 present
  have "requests (snd (snd (get_data host_omits worker0 ?T1 ?W1))) = requests ?W1"
    by blast
  then have "requests (snd (snd (get_data host_omits worker0 ?T1 ?W1))) = [data_request 7]"
    by simp
  with get_data_stub7_world0 present show ?thesis by blast
qed

theorem get_data_text_witness:
  "truthy (a_data text7) \<and> startsWith (a_content_type text7) ''text/''
   \<and> fst (get_data host_omits worker0 \<lparr>this_id = 7, this_data = Some text7\<rparr> world0) =
       Inr \<lparr>r_blob = ''hello'', r_text = Some ''hello'',
            r_attachment = \<lparr>this_id = 7, this_data = Some text7\<rparr>\<rparr>
   \<and> \<not> a_is_patch stub7 \<and> \<not> startsWith (a_content_type stub7) ''text/''
   \<and> fst (get_data host_returns worker0 \<lparr>this_id = 7, this_data = Some stub7\<rparr> world0) =
       Inr \<lparr>r_blob = ''hello'', r_text = None,
            r_attachment = \<lparr>this_id = 7, this_data = Some full7\<rparr>\<rparr>"
proof -
  have t1: "truthy (a_data text7)" and t2: "startsWith (a_content_type text7) ''text/''"
    and t3: "\<not> a_is_patch text7"
    by (simp_all add: text7_def truthy_def)
  have s1: "\<not> truthy (a_data stub7)" and s2: "\<not> a_is_patch stub7"
    and s3: "\<not> startsWith (a_content_type stub7) ''text/''"
    by (simp_all add: stub7_def truthy_def)
  have f1: "truthy (a_data full7)" by (simp add: full7_def truthy_def)
  note t = get_data_text [of "\<lparr>this_id = 7, this_data = Some text7\<rparr>" text7 host_omits
      worker0 world0]
  from t [THEN conjunct1] t1
  have a: "fst (get_data host_omits worker0 \<lparr>this_id = 7, this_data = Some text7\<rparr> world0) =
       Inr \<lparr>r_blob = ''hello'', r_text = Some ''hello'',
            r_attachment = \<lparr>this_id = 7, this_data = Some text7\<rparr>\<rparr>"
    by (simp add: t2 worker0_def)
  note u = get_data_text [of "\<lparr>this_id = 7, this_data = Some stub7\<rparr>" stub7 host_returns
      worker0 world0 "\<lparr>attachments = Some [7 \<mapsto> full7]\<rparr>" "[7 \<mapsto> full7]" full7]
  from u [THEN conjunct2, THEN conjunct1] s1 f1
  have b: "fst (get_data host_returns worker0 \<lparr>this_id = 7, this_data = Some stub7\<rparr> world0) =
       Inr \<lparr>r_blob = ''hello'', r_text = None,
            r_attachment = \<lparr>this_id = 7, this_data = Some full7\<rparr>\<rparr>"
    by (simp add: s2 s3 worker0_def host_returns_def stub7_filled)
  from t1 t2 a s2 s3 b show ?thesis by blast
qed

section \<open>Timeline view: results\<close>

subsection \<open>Maps\<close>

lemma Map_has_set: "Map_has k (Map_set k' v m) = (k = k' \<or> Map_has k m)"
  by (induction m) (auto split: if_splits)

lemma Map_get_None: "(Map_get k m = None) = (\<not> Map_has k m)"
  by (induction m) (auto split: if_splits)

lemma Map_get_in: "Map_get k m = Some v \<Longrightarrow> (k, v) \<in> set m"
  by (induction m) (auto split: if_splits)

lemma set_Map_set: "set (Map_set k v m) \<subseteq> insert (k, v) (set m)"
  by (induction m) (auto split: if_splits)

lemma set_foldl_Map_set:
  "set (foldl (\<lambda>m (k, v). Map_set k v m) acc ps) \<subseteq> set acc \<union> set ps"
proof (induction ps arbitrary: acc)
  case Nil
  then show ?case by simp
next
  case (Cons p ps)
  obtain k v where p: "p = (k, v)" by (cases p)
  have "set (foldl (\<lambda>m (k, v). Map_set k v m) (Map_set k v acc) ps)
          \<subseteq> set (Map_set k v acc) \<union> set ps"
    by (rule Cons.IH)
  also have "\<dots> \<subseteq> insert (k, v) (set acc) \<union> set ps"
    using set_Map_set [of k v acc] by blast
  finally show ?case by (auto simp: p)
qed

lemma set_new_Map: "set (new_Map ps) \<subseteq> set ps"
  using set_foldl_Map_set [of "[]" ps] by (simp add: new_Map_def)

subsection \<open>Sorting\<close>

lemma set_sink: "set (sink swap x ps) = insert x (set ps)"
  by (induction ps) auto

lemma set_foldl_sink: "set (foldl (\<lambda>ps x. sink swap x ps) acc xs) = set acc \<union> set xs"
  by (induction xs arbitrary: acc) (auto simp: set_sink)

lemma set_insertion_sort: "set (insertion_sort swap xs) = set xs"
  by (simp add: insertion_sort_def set_foldl_sink)

lemma set_array_sort: "set (array_sort engine comparefn xs) = set xs"
  by (cases engine) (simp_all add: array_sort_def set_insertion_sort)




subsection \<open>No entry is flagged before the collapsing loop\<close>

lemma unflagged_Map_set:
  assumes "unflagged es" and "\<not> Map_has ''rendering'' d"
  shows "unflagged (Map_set t d es)"
  using assms set_Map_set [of t d es] by (auto simp: unflagged_def)

lemma unflagged_comment_entries: "unflagged (comment_entries cs)"
proof -
  have "\<not> Map_has ''rendering'' (snd e)"
    if "e \<in> set (map (\<lambda>c. (c_creation_time c, new_Map [(''comment'', Comment c)])) cs)" for e
    using that by (auto simp: new_Map_def)
  then show ?thesis
    using set_new_Map [of "map (\<lambda>c. (c_creation_time c, new_Map [(''comment'', Comment c)])) cs"]
    unfolding unflagged_def comment_entries_def by blast
qed

lemma unflagged_add_attachments:
  "unflagged es \<Longrightarrow> add_attachments as es = Inr es' \<Longrightarrow> unflagged es'"
proof (induction as arbitrary: es)
  case Nil
  then show ?case by simp
next
  case (Cons a as)
  from Cons.prems(2) obtain d where d: "Map_get (a_creation_time a) es = Some d"
    and rest: "add_attachments as
        (Map_set (a_creation_time a) (Map_set ''attachment'' (Attachment a) d) es) = Inr es'"
    by (auto split: option.splits)
  from Map_get_in [OF d] Cons.prems(1) have "\<not> Map_has ''rendering'' d"
    by (auto simp: unflagged_def)
  then have "\<not> Map_has ''rendering'' (Map_set ''attachment'' (Attachment a) d)"
    by (simp add: Map_has_set)
  with Cons.prems(1)
  have "unflagged (Map_set (a_creation_time a) (Map_set ''attachment'' (Attachment a) d) es)"
    by (rule unflagged_Map_set)
  then show ?case using rest by (rule Cons.IH)
qed

lemma unflagged_add_history:
  "unflagged es \<Longrightarrow> add_history hs es = Inr es' \<Longrightarrow> unflagged es'"
proof (induction hs arbitrary: es)
  case Nil
  then show ?case by simp
next
  case (Cons h hs)
  show ?case
  proof (cases "Map_has (h_when h) es")
    case True
    with Cons.prems(2) obtain d where d: "Map_get (h_when h) es = Some d"
      and rest: "add_history hs
          (Map_set (h_when h) (Map_set ''history'' (History h) d) es) = Inr es'"
      by (auto split: option.splits)
    from Map_get_in [OF d] Cons.prems(1) have "\<not> Map_has ''rendering'' d"
      by (auto simp: unflagged_def)
    then have "\<not> Map_has ''rendering'' (Map_set ''history'' (History h) d)"
      by (simp add: Map_has_set)
    with Cons.prems(1)
    have "unflagged (Map_set (h_when h) (Map_set ''history'' (History h) d) es)"
      by (rule unflagged_Map_set)
    then show ?thesis using rest by (rule Cons.IH)
  next
    case False
    with Cons.prems(2)
    have rest: "add_history hs
        (Map_set (h_when h) (new_Map [(''history'', History h)]) es) = Inr es'"
      by simp
    have "\<not> Map_has ''rendering'' (new_Map [(''history'', History h)])"
      by (simp add: new_Map_def)
    with Cons.prems(1)
    have "unflagged (Map_set (h_when h) (new_Map [(''history'', History h)]) es)"
      by (rule unflagged_Map_set)
    then show ?thesis using rest by (rule Cons.IH)
  qed
qed

lemma unflagged_array_sort: "unflagged es \<Longrightarrow> unflagged (array_sort engine comparefn es)"
  by (simp add: unflagged_def set_array_sort)

subsection \<open>The collapsing loop\<close>

lemma collapse_read_entries:
  "m_entries (collapse_read delayed lv es m) = m_entries m @ map (mark_entry delayed lv) es"
  by (induction es arbitrary: m) (auto simp: mark_entry_def Let_def)

lemma collapse_read_last:
  "last_comment_time (collapse_read delayed lv es m) =
     last_time (last_comment_time m) (filter (is_read_comment delayed lv) es)"
proof (induction es arbitrary: m)
  case Nil
  then show ?case by (simp add: last_time_def)
next
  case (Cons e es)
  obtain time data where e: "e = (time, data)" by (cases e)
  show ?case
  proof (cases "is_read_comment delayed lv e")
    case True
    then have b: "before_last_visit delayed lv time" and c: "Map_has ''comment'' data"
      by (simp_all add: e is_read_comment_def)
    have "last_comment_time (collapse_read delayed lv (e # es) m) =
        last_time (Some time) (filter (is_read_comment delayed lv) es)"
      by (simp add: e b c Map_has_set Let_def Cons.IH)
    also have "\<dots> = last_time (last_comment_time m) (filter (is_read_comment delayed lv) (e # es))"
      using True by (simp add: last_time_def e split: list.splits)
    finally show ?thesis .
  next
    case False
    then have n: "\<not> (before_last_visit delayed lv time \<and> Map_has ''comment'' data)"
      by (simp add: e is_read_comment_def)
    have "last_comment_time (collapse_read delayed lv (e # es) m) =
        last_time (last_comment_time m) (filter (is_read_comment delayed lv) es)"
      using n by (auto simp: e Map_has_set Let_def Cons.IH)
    with False show ?thesis by simp
  qed
qed

lemma flag_mark_entry:
  "\<not> Map_has ''rendering'' (snd e) \<Longrightarrow>
   Map_has ''rendering'' (snd (mark_entry delayed lv e)) = (\<not> before_last_visit delayed lv (fst e))"
  by (simp add: mark_entry_def Map_has_set)

lemma fst_mark_entry: "fst (mark_entry delayed lv e) = fst e"
  by (simp add: mark_entry_def)

lemma comment_mark_entry:
  "Map_has ''comment'' (snd (mark_entry delayed lv e)) = Map_has ''comment'' (snd e)"
  by (simp add: mark_entry_def Map_has_set)

lemma is_read_comment_mark_entry:
  "is_read_comment delayed lv (mark_entry delayed' lv' e) = is_read_comment delayed lv e"
  by (simp add: is_read_comment_def fst_mark_entry comment_mark_entry)

subsection \<open>The merge\<close>

lemma BugTimelineView_steps:
  assumes "b_attachments bug = Some atts"
    and "add_attachments atts (comment_entries (b_comments bug)) = Inr es1"
    and "add_history (b_history bug) es1 = Inr es2"
    and "collapse_read delayed (b_last_visit bug) (array_sort engine by_time es2)
           \<lparr>m_entries = [], read_comments_num = 0, last_comment_time = None\<rparr> = m"
  shows "BugTimelineView engine bug delayed =
     Inr \<lparr>v_entries = m_entries m,
          v_data_arr = map snd (filter (rendered_at_once (last_comment_time m)) (m_entries m)),
          v_expander = (if read_comments_num m > 1 then Some (read_comments_num m - 1)
                        else None)\<rparr>"
  using assms by (simp add: BugTimelineView_def ebind_def Let_def)

lemma BugTimelineView_Inr:
  assumes "BugTimelineView engine bug delayed = Inr v"
  obtains atts es1 es2 where "b_attachments bug = Some atts"
    and "add_attachments atts (comment_entries (b_comments bug)) = Inr es1"
    and "add_history (b_history bug) es1 = Inr es2"
proof -
  from assms obtain atts where a: "b_attachments bug = Some atts"
    by (cases "b_attachments bug") (simp_all add: BugTimelineView_def)
  from assms a obtain es1
    where b: "add_attachments atts (comment_entries (b_comments bug)) = Inr es1"
    by (cases "add_attachments atts (comment_entries (b_comments bug))")
       (simp_all add: BugTimelineView_def ebind_def)
  from assms a b obtain es2 where c: "add_history (b_history bug) es1 = Inr es2"
    by (cases "add_history (b_history bug) es1") (simp_all add: BugTimelineView_def ebind_def)
  from a b c show ?thesis by (rule that)
qed


text \<open>
  The loop over the attachments fails exactly when some attachment was created at a time
  that is the creation time of no comment; the loop over the history never fails.
\<close>

lemma Map_has_foldl_Map_set:
  "Map_has k (foldl (\<lambda>m (k, v). Map_set k v m) acc ps) = (Map_has k acc \<or> k \<in> fst ` set ps)"
  by (induction ps arbitrary: acc) (auto simp: Map_has_set)

lemma Map_has_new_Map: "Map_has k (new_Map ps) = (k \<in> fst ` set ps)"
  by (simp add: new_Map_def Map_has_foldl_Map_set)

lemma Map_has_comment_entries:
  "Map_has t (comment_entries cs) = (t \<in> c_creation_time ` set cs)"
  by (simp add: comment_entries_def Map_has_new_Map image_image)

lemma add_attachments_unmatched:
  "a \<in> set as \<Longrightarrow> \<not> Map_has (a_creation_time a) es \<Longrightarrow> add_attachments as es = Inl TypeError"
proof (induction as arbitrary: es)
  case Nil
  then show ?case by simp
next
  case (Cons x xs)
  show ?case
  proof (cases "Map_get (a_creation_time x) es")
    case None
    then show ?thesis by simp
  next
    case (Some d)
    then have hx: "Map_has (a_creation_time x) es"
      using Map_get_None [of "a_creation_time x" es] by simp
    with Cons.prems(2) have "a \<noteq> x" by auto
    with Cons.prems(1) have "a \<in> set xs" by simp
    moreover from hx Cons.prems(2) have "a_creation_time a \<noteq> a_creation_time x" by auto
    with Cons.prems(2) have "\<not> Map_has (a_creation_time a)
        (Map_set (a_creation_time x) (Map_set ''attachment'' (Attachment x) d) es)"
      by (simp add: Map_has_set)
    ultimately have "add_attachments xs
        (Map_set (a_creation_time x) (Map_set ''attachment'' (Attachment x) d) es) = Inl TypeError"
      by (rule Cons.IH)
    with Some show ?thesis by simp
  qed
qed



lemma timeline_unmatched_attachment:
  assumes "b_attachments bug = Some atts" and "a \<in> set atts"
    and "a_creation_time a \<notin> c_creation_time ` set (b_comments bug)"
  shows "BugTimelineView engine bug delayed = Inl TypeError"
proof -
  from assms(3) have "\<not> Map_has (a_creation_time a) (comment_entries (b_comments bug))"
    by (simp add: Map_has_comment_entries)
  with assms(2) have "add_attachments atts (comment_entries (b_comments bug)) = Inl TypeError"
    by (rule add_attachments_unmatched)
  with assms(1) show ?thesis
    by (simp add: BugTimelineView_def ebind_def)
qed


text \<open>
  Claim C2, at the input where it fails. The bug has one comment, at time 2000, and one
  attachment, created at time 1000. The constructor throws a \<open>TypeError\<close> in the loop over
  the attachments, in every engine and in both modes: no timeline is produced.
\<close>

theorem timeline_lone_attachment:
  "BugTimelineView engine bug_lone_attachment delayed = Inl TypeError"
  by (rule timeline_unmatched_attachment [of _ "[stub7]" stub7])
     (simp_all add: bug_lone_attachment_def c2000_def stub7_def)

text \<open>
  In SpiderMonkey the boolean comparator does sort: the timeline is in ascending order of
  time, whatever the order of the input arrays.
\<close>

lemma sorted_sink:
  assumes "sorted_wrt (\<lambda>a b. fst b \<le> fst a) ps"
  shows "sorted_wrt (\<lambda>a b. fst b \<le> fst a) (sink (\<lambda>p x. \<not> by_time p x \<le> 0) x ps)"
  using assms
proof (induction ps)
  case Nil
  then show ?case by simp
next
  case (Cons p ps)
  show ?case
  proof (cases "fst p > fst x")
    case True
    then have s: "sink (\<lambda>p x. \<not> by_time p x \<le> 0) x (p # ps) =
        p # sink (\<lambda>p x. \<not> by_time p x \<le> 0) x ps"
      by (simp add: by_time_def)
    from Cons have "sorted_wrt (\<lambda>a b. fst b \<le> fst a) (sink (\<lambda>p x. \<not> by_time p x \<le> 0) x ps)"
      by simp
    moreover have "\<forall>y \<in> set (sink (\<lambda>p x. \<not> by_time p x \<le> 0) x ps). fst y \<le> fst p"
      using Cons.prems True by (auto simp: set_sink)
    ultimately show ?thesis
      unfolding s using Cons.prems by simp
  next
    case False
    then have s: "sink (\<lambda>p x. \<not> by_time p x \<le> 0) x (p # ps) = x # p # ps"
      by (simp add: by_time_def)
    from False Cons.prems show ?thesis
      unfolding s by fastforce
  qed
qed

lemma sorted_foldl_sink:
  "sorted_wrt (\<lambda>a b. fst b \<le> fst a) acc \<Longrightarrow>
   sorted_wrt (\<lambda>a b. fst b \<le> fst a)
     (foldl (\<lambda>ps x. sink (\<lambda>p x. \<not> by_time p x \<le> 0) x ps) acc xs)"
  by (induction xs arbitrary: acc) (simp_all add: sorted_sink)

lemma sorted_array_sort_SpiderMonkey:
  "sorted (map fst (array_sort SpiderMonkey by_time es))"
proof -
  have "sorted_wrt (\<lambda>a b. fst b \<le> fst a)
      (foldl (\<lambda>ps x. sink (\<lambda>p x. \<not> by_time p x \<le> 0) x ps) [] es)"
    by (rule sorted_foldl_sink) simp
  then have "sorted_wrt (\<lambda>a b. fst a \<le> fst b)
      (rev (foldl (\<lambda>ps x. sink (\<lambda>p x. \<not> by_time p x \<le> 0) x ps) [] es))"
    by (simp add: sorted_wrt_rev)
  then show ?thesis
    by (simp add: array_sort_def insertion_sort_def sorted_wrt_map)
qed

lemma timeline_sorted_in_SpiderMonkey:
  assumes "BugTimelineView SpiderMonkey bug delayed = Inr v"
  shows "sorted (map fst (v_entries v))"
proof -
  from assms obtain atts es1 es2 where a: "b_attachments bug = Some atts"
    and b: "add_attachments atts (comment_entries (b_comments bug)) = Inr es1"
    and c: "add_history (b_history bug) es1 = Inr es2"
    by (rule BugTimelineView_Inr)
  from BugTimelineView_steps [where delayed = delayed and engine = SpiderMonkey, OF a b c refl] assms
  have "v_entries v = map (mark_entry delayed (b_last_visit bug)) (array_sort SpiderMonkey by_time es2)"
    by (simp add: collapse_read_entries)
  then have "map fst (v_entries v) = map fst (array_sort SpiderMonkey by_time es2)"
    by (simp add: o_def fst_mark_entry)
  then show ?thesis by (simp add: sorted_array_sort_SpiderMonkey)
qed


subsection \<open>Collapsing the read comments\<close>

lemma last_time_marked:
  "last_time start (filter (is_read_comment delayed lv) (map (mark_entry delayed' lv') es)) =
   last_time start (filter (is_read_comment delayed lv) es)"
proof -
  have f: "filter (is_read_comment delayed lv) (map (mark_entry delayed' lv') es) =
      map (mark_entry delayed' lv') (filter (is_read_comment delayed lv) es)"
    by (simp add: filter_map o_def is_read_comment_mark_entry)
  show ?thesis
  proof (cases "filter (is_read_comment delayed lv) es = []")
    case True
    then show ?thesis by (simp add: f last_time_def)
  next
    case False
    then show ?thesis
      by (simp add: f last_time_def last_map fst_mark_entry split: list.splits)
  qed
qed

lemma timeline_visited:
  "BugTimelineView SpiderMonkey bug_visited False =
     Inr \<lparr>v_entries =
            [(1000, [(''comment'', Comment c1000), (''time'', Time 1000)]),
             (2000, [(''comment'', Comment c2000), (''time'', Time 2000)]),
             (6000, [(''history'', History h6000), (''time'', Time 6000),
                     (''rendering'', Flag True)])],
          v_data_arr =
            [[(''comment'', Comment c2000), (''time'', Time 2000)],
             [(''history'', History h6000), (''time'', Time 6000), (''rendering'', Flag True)]],
          v_expander = Some 1\<rparr>"
proof -
  have a: "b_attachments bug_visited = Some []"
    by (simp add: bug_visited_def)
  have es1: "add_attachments [] (comment_entries (b_comments bug_visited)) =
      Inr [(1000, [(''comment'', Comment c1000)]), (2000, [(''comment'', Comment c2000)])]"
    by (simp add: bug_visited_def comment_entries_def new_Map_def c1000_def c2000_def)
  have es2: "add_history (b_history bug_visited)
      [(1000, [(''comment'', Comment c1000)]), (2000, [(''comment'', Comment c2000)])] =
      Inr [(1000, [(''comment'', Comment c1000)]), (2000, [(''comment'', Comment c2000)]),
           (6000, [(''history'', History h6000)])]"
    by (simp add: bug_visited_def new_Map_def h6000_def)
  have sm: "array_sort SpiderMonkey by_time
      [(1000, [(''comment'', Comment c1000)]), (2000, [(''comment'', Comment c2000)]),
           (6000, [(''history'', History h6000)])] =
      [(1000, [(''comment'', Comment c1000)]), (2000, [(''comment'', Comment c2000)]),
       (6000, [(''history'', History h6000)])]"
    by (simp add: array_sort_def insertion_sort_def by_time_def)
  have lv: "b_last_visit bug_visited = Some 5000"
    by (simp add: bug_visited_def)
  show ?thesis
    by (subst BugTimelineView_steps [OF a es1 es2 refl])
       (simp add: sm lv before_last_visit_def rendered_at_once_def)
qed

text \<open>
  Claim C9 as stated fails. The bug has comments at times 1000 and 2000, a field change at
  time 6000 and a last visit at time 5000; the timeline is not delayed. The entry of time
  2000 is strictly before the boundary, and it is among the entries rendered at once.
\<close>

theorem read_comment_rendered_at_once:
  "BugTimelineView SpiderMonkey bug_visited False =
     Inr \<lparr>v_entries =
            [(1000, [(''comment'', Comment c1000), (''time'', Time 1000)]),
             (2000, [(''comment'', Comment c2000), (''time'', Time 2000)]),
             (6000, [(''history'', History h6000), (''time'', Time 6000),
                     (''rendering'', Flag True)])],
          v_data_arr =
            [[(''comment'', Comment c2000), (''time'', Time 2000)],
             [(''history'', History h6000), (''time'', Time 6000), (''rendering'', Flag True)]],
          v_expander = Some 1\<rparr>
   \<and> b_last_visit bug_visited = Some 5000
   \<and> (2000 :: int) < 5000"
  using timeline_visited by (simp add: bug_visited_def)

text \<open>
  Claim C9 as amended. The bug has a last visit at time \<open>l\<close> and the timeline is not
  delayed. Then an entry of the timeline is flagged for rendering exactly when its time is
  at or after \<open>l\<close>; and the entries rendered at once are, in timeline order, those at or
  after \<open>l\<close> together with those at or after the time of the last read comment, the last
  entry of the timeline that is before \<open>l\<close> and holds a comment. No other entry is
  rendered at once.
\<close>

theorem rendering_marks:
  assumes "BugTimelineView engine bug False = Inr v" and "b_last_visit bug = Some l"
  shows "(\<forall>e \<in> set (v_entries v). Map_has ''rendering'' (snd e) = (l \<le> fst e))
    \<and> v_data_arr v =
        map snd (filter (\<lambda>e. l \<le> fst e \<or>
                   (case last_read_comment l (v_entries v) of
                      None \<Rightarrow> False | Some t \<Rightarrow> t \<le> fst e))
                 (v_entries v))"
proof -
  from assms(1) obtain atts es1 es2 where a: "b_attachments bug = Some atts"
    and b: "add_attachments atts (comment_entries (b_comments bug)) = Inr es1"
    and c: "add_history (b_history bug) es1 = Inr es2"
    by (rule BugTimelineView_Inr)
  let ?sorted = "array_sort engine by_time es2"
  let ?m = "collapse_read False (Some l) ?sorted
              \<lparr>m_entries = [], read_comments_num = 0, last_comment_time = None\<rparr>"
  have "unflagged es1"
    using unflagged_comment_entries b by (rule unflagged_add_attachments)
  then have "unflagged es2"
    using c by (rule unflagged_add_history)
  then have u: "unflagged ?sorted"
    by (rule unflagged_array_sort)
  have me: "m_entries ?m = map (mark_entry False (Some l)) ?sorted"
    by (simp add: collapse_read_entries)
  have lct: "last_comment_time ?m = last_read_comment l (m_entries ?m)"
    by (simp add: collapse_read_last me last_read_comment_def last_time_marked)
  from BugTimelineView_steps [OF a b c, of False engine ?m] assms
  have v: "v_entries v = m_entries ?m"
    "v_data_arr v = map snd (filter (rendered_at_once (last_comment_time ?m)) (m_entries ?m))"
    by simp_all
  have flag: "Map_has ''rendering'' (snd e) = (l \<le> fst e)" if "e \<in> set (m_entries ?m)" for e
  proof -
    from that obtain e0 where e0: "e0 \<in> set ?sorted" and e: "e = mark_entry False (Some l) e0"
      by (auto simp: me)
    from e0 u have "\<not> Map_has ''rendering'' (snd e0)"
      by (simp add: unflagged_def)
    then show ?thesis
      by (auto simp: e flag_mark_entry fst_mark_entry before_last_visit_def)
  qed
  have "filter (rendered_at_once (last_comment_time ?m)) (m_entries ?m) =
      filter (\<lambda>e. l \<le> fst e \<or>
                   (case last_read_comment l (m_entries ?m) of
                      None \<Rightarrow> False | Some t \<Rightarrow> t \<le> fst e)) (m_entries ?m)"
    by (rule filter_cong) (simp_all add: rendered_at_once_def flag lct)
  with v flag show ?thesis by simp
qed

theorem rendering_marks_witness:
  "b_last_visit bug_visited = Some 5000
   \<and> last_read_comment 5000
        [(1000, [(''comment'', Comment c1000), (''time'', Time 1000)]),
         (2000, [(''comment'', Comment c2000), (''time'', Time 2000)]),
         (6000, [(''history'', History h6000), (''time'', Time 6000),
                 (''rendering'', Flag True)])] = Some 2000
   \<and> v_data_arr
        \<lparr>v_entries =
            [(1000, [(''comment'', Comment c1000), (''time'', Time 1000)]),
             (2000, [(''comment'', Comment c2000), (''time'', Time 2000)]),
             (6000, [(''history'', History h6000), (''time'', Time 6000),
                     (''rendering'', Flag True)])],
          v_data_arr =
            [[(''comment'', Comment c2000), (''time'', Time 2000)],
             [(''history'', History h6000), (''time'', Time 6000), (''rendering'', Flag True)]],
          v_expander = Some 1\<rparr> =
       map snd (filter (\<lambda>e. (5000 :: int) \<le> fst e \<or> 2000 \<le> fst e)
         [(1000, [(''comment'', Comment c1000), (''time'', Time 1000)]),
          (2000, [(''comment'', Comment c2000), (''time'', Time 2000)]),
          (6000, [(''history'', History h6000), (''time'', Time 6000),
                  (''rendering'', Flag True)])])"
proof -
  have lv: "b_last_visit bug_visited = Some 5000"
    by (simp add: bug_visited_def)
  have lr: "last_read_comment 5000
        [(1000, [(''comment'', Comment c1000), (''time'', Time 1000)]),
         (2000, [(''comment'', Comment c2000), (''time'', Time 2000)]),
         (6000, [(''history'', History h6000), (''time'', Time 6000),
                 (''rendering'', Flag True)])] = Some 2000"
    by (simp add: last_read_comment_def last_time_def is_read_comment_def before_last_visit_def)
  from rendering_marks [OF timeline_visited lv, THEN conjunct2] lr lv
  show ?thesis by simp
qed

subsection \<open>The order within one time\<close>









subsection \<open>The total order of the timeline\<close>















end
